theory Spec2Isabelle
  imports Main "HOL-Library.Word"
begin

unbundle bit_operations_syntax

section \<open>Data model\<close>

text \<open>
  The model follows \<^verbatim>\<open>shenandoahHeapRegionCounters.cpp\<close>. A \<^verbatim>\<open>jlong\<close> is a 64-bit
  two's complement integer, a C++ \<^verbatim>\<open>int\<close> a 32-bit one and \<^verbatim>\<open>size_t\<close> an unsigned
  64-bit one; all three are words, read with \<open>sint\<close> or \<open>unat\<close> where the sign matters.
\<close>

type_synonym jlong = "64 word"
type_synonym jint = "32 word"
type_synonym size_t = "64 word"

text \<open>
  Ways in which a call can end without returning: a failed \<^verbatim>\<open>assert\<close> (debug builds
  only), a dereference of a null or never initialised pointer, a division by zero and a
  write past the end of the \<^verbatim>\<open>_regions_data\<close> array.
\<close>

datatype error = AssertionFailure | NullPointer | DivisionByZero | IndexOutOfBounds

datatype GenerationMode = YOUNG | OLD | GLOBAL

text \<open>
  Modelled from the spec: the enumeration of region affiliations is declared in a header
  that is not among the sources; the spec lists three values (unassigned, young, old),
  encoded by their ordinals.
\<close>

datatype ShenandoahRegionAffiliation = FREE | YOUNG_GENERATION | OLD_GENERATION

fun affiliation_ordinal :: "ShenandoahRegionAffiliation \<Rightarrow> jlong" where
  "affiliation_ordinal FREE = 0"
| "affiliation_ordinal YOUNG_GENERATION = 1"
| "affiliation_ordinal OLD_GENERATION = 2"

text \<open>
  The queries \<^verbatim>\<open>update\<close> makes of a region: six byte counts (\<^verbatim>\<open>size_t\<close>), the age
  (\<^verbatim>\<open>uint\<close>), the affiliation and the ordinal of the region state (\<^verbatim>\<open>int\<close>).
\<close>

record ShenandoahHeapRegion =
  used :: size_t
  get_live_data_bytes :: size_t
  get_tlab_allocs :: size_t
  get_gclab_allocs :: size_t
  get_plab_allocs :: size_t
  get_shared_allocs :: size_t
  age :: jint
  affiliation :: ShenandoahRegionAffiliation
  state_ordinal :: jint

text \<open>
  The queries made of the heap. Each is an independent field: the heap itself is not part
  of the sources, so the model assumes no relation between them. \<open>active_generation\<close> is
  \<open>None\<close> for a null pointer. \<open>regions\<close> holds the regions in index order, so that
  \<^verbatim>\<open>num_regions()\<close> is its length and \<^verbatim>\<open>get_region(i)\<close> its \<open>i\<close>-th element; the loop
  index of \<^verbatim>\<open>update\<close> is a \<^verbatim>\<open>uint\<close>, and the model covers heaps of fewer than \<open>2 ^ 32\<close>
  regions, where it does not wrap.
\<close>

record ShenandoahHeap =
  is_idle :: bool
  is_evacuation_in_progress :: bool
  is_update_refs_in_progress :: bool
  is_concurrent_mark_in_progress :: bool
  is_generational :: bool
  active_generation :: "GenerationMode option"
  is_concurrent_old_mark_in_progress :: bool
  is_degenerated_gc_in_progress :: bool
  is_full_gc_in_progress :: bool
  regions :: "ShenandoahHeapRegion list"

definition num_regions :: "ShenandoahHeap \<Rightarrow> nat" where
  "num_regions heap = length (regions heap)"

text \<open>
  The masks and shifts of the per-region word are constants of the class, declared in a
  header that is not among the sources. They are parameters of the model.
\<close>

record layout =
  PERCENT_MASK :: jlong
  AGE_MASK :: jlong
  AFFILIATION_MASK :: jlong
  STATUS_MASK :: jlong
  USED_SHIFT :: nat
  LIVE_SHIFT :: nat
  TLAB_SHIFT :: nat
  GCLAB_SHIFT :: nat
  SHARED_SHIFT :: nat
  PLAB_SHIFT :: nat
  AGE_SHIFT :: nat
  AFFILIATION_SHIFT :: nat
  STATUS_SHIFT :: nat

text \<open>
  What is fixed for the life of the process: the VM flags the file reads, whether
  \<^verbatim>\<open>assert\<close> is compiled in (\<open>ASSERT\<close>), the layout constants and
  \<^verbatim>\<open>ShenandoahHeapRegion::region_size_bytes()\<close>. The flags are declared outside the
  sources; the sampling rate is taken to be an \<^verbatim>\<open>int\<close> of milliseconds.
\<close>

record globals =
  UsePerfData :: bool
  ShenandoahRegionSampling :: bool
  ShenandoahRegionSamplingRate :: jint
  ShenandoahLogRegionSampling :: bool
  ASSERT :: bool
  bit_layout :: layout
  region_size_bytes :: size_t

section \<open>The status word\<close>

text \<open>
  \<^verbatim>\<open>encode_phase\<close>: three tests in order, then an assertion that the heap is idle. The
  assertion is compiled in debug builds only; a product build returns 0 there.
\<close>

definition encode_phase :: "bool \<Rightarrow> ShenandoahHeap \<Rightarrow> error + jint" where
  "encode_phase debug heap =
     (if is_evacuation_in_progress heap then Inr 2
      else if is_update_refs_in_progress heap then Inr 3
      else if is_concurrent_mark_in_progress heap then Inr 1
      else if debug \<and> \<not> is_idle heap then Inl AssertionFailure
      else Inr 0)"

text \<open>
  \<^verbatim>\<open>get_generation_shift\<close>: the \<^verbatim>\<open>default\<close> branch of the switch is for values outside
  the enumeration, which the datatype does not have.
\<close>

fun get_generation_shift :: "GenerationMode \<Rightarrow> nat" where
  "get_generation_shift GLOBAL = 0"
| "get_generation_shift OLD = 2"
| "get_generation_shift YOUNG = 4"

text \<open>
  \<^verbatim>\<open>encode_heap_status\<close>. The phase and the flag bits are computed as \<^verbatim>\<open>int\<close> and
  converted to \<^verbatim>\<open>jlong\<close> (\<open>scast\<close>) when they are combined with \<^verbatim>\<open>status\<close>. A null
  active generation fails the assertion in a debug build and is dereferenced in a product
  build. The trace message has no effect on the result and is left out.
\<close>

definition encode_heap_status :: "bool \<Rightarrow> ShenandoahHeap \<Rightarrow> error + jlong" where
  "encode_heap_status debug heap =
     (if is_idle heap then Inr 0
      else
        (case
           (if \<not> is_generational heap then
              (case encode_phase debug heap of
                 Inl e \<Rightarrow> Inl e
               | Inr phase \<Rightarrow> Inr (scast phase))
            else
              (case encode_phase debug heap of
                 Inl e \<Rightarrow> Inl e
               | Inr phase \<Rightarrow>
                   (case active_generation heap of
                      None \<Rightarrow> Inl (if debug then AssertionFailure else NullPointer)
                    | Some generation \<Rightarrow>
                        (let shift = get_generation_shift generation;
                             status = 0 OR scast (push_bit shift (phase AND 3));
                             status = (if is_concurrent_old_mark_in_progress heap
                                       then status OR scast (push_bit 2 (1 :: jint))
                                       else status)
                         in Inr status))))
         of
           Inl e \<Rightarrow> Inl e
         | Inr status \<Rightarrow>
             (let status = (if is_degenerated_gc_in_progress heap
                            then status OR scast (push_bit 6 (1 :: jint)) else status);
                  status = (if is_full_gc_in_progress heap
                            then status OR scast (push_bit 7 (1 :: jint)) else status)
              in Inr status)))"

section \<open>The per-region word\<close>

text \<open>
  Lines 110 to 120 of \<^verbatim>\<open>update\<close>: the word of one region. The six ratios are computed
  in \<^verbatim>\<open>size_t\<close> arithmetic, so \<open>100 * x\<close> wraps at \<open>2 ^ 64\<close>; the age is a \<^verbatim>\<open>uint\<close>
  (zero-extended), the state ordinal an \<^verbatim>\<open>int\<close> (sign-extended). A region size of zero
  is a division by zero.
\<close>

definition region_data :: "layout \<Rightarrow> size_t \<Rightarrow> ShenandoahHeapRegion \<Rightarrow> error + jlong" where
  "region_data L rs r =
     (if rs = 0 then Inl DivisionByZero
      else
        (let data = 0;
             data = data OR push_bit (USED_SHIFT L) ((100 * used r div rs) AND PERCENT_MASK L);
             data = data OR push_bit (LIVE_SHIFT L)
                      ((100 * get_live_data_bytes r div rs) AND PERCENT_MASK L);
             data = data OR push_bit (TLAB_SHIFT L)
                      ((100 * get_tlab_allocs r div rs) AND PERCENT_MASK L);
             data = data OR push_bit (GCLAB_SHIFT L)
                      ((100 * get_gclab_allocs r div rs) AND PERCENT_MASK L);
             data = data OR push_bit (PLAB_SHIFT L)
                      ((100 * get_plab_allocs r div rs) AND PERCENT_MASK L);
             data = data OR push_bit (SHARED_SHIFT L)
                      ((100 * get_shared_allocs r div rs) AND PERCENT_MASK L);
             data = data OR push_bit (AGE_SHIFT L) (ucast (age r) AND AGE_MASK L);
             data = data OR push_bit (AFFILIATION_SHIFT L)
                      (affiliation_ordinal (affiliation r) AND AFFILIATION_MASK L);
             data = data OR push_bit (STATUS_SHIFT L)
                      (scast (state_ordinal r) AND STATUS_MASK L)
         in Inr data))"

section \<open>The sampler\<close>

text \<open>
  Every call on a counter, on the heap lock and on the log file is recorded, in order, in
  \<open>trace\<close>; the trace is the only part of the state that is not in the source.
  \<open>WriteSnapshot\<close> carries what \<^verbatim>\<open>write_snapshot\<close> is handed: the region words, the
  timestamp, the status, the region count and the region size.
\<close>

datatype event =
    SetStatus jlong
  | SetTimestamp jlong
  | LockHeap
  | SetRegion nat jlong
  | WriteSnapshot "jlong list" jlong jlong nat size_t
  | UnlockHeap

text \<open>
  The object. \<open>perf_created\<close> tells whether the constructor created the counters; when
  it did not, \<^verbatim>\<open>_timestamp\<close>, \<^verbatim>\<open>_status\<close> and \<^verbatim>\<open>_regions_data\<close> were never initialised.
  \<open>max_regions\<close> and \<open>region_size\<close> are the two constants the constructor publishes.
  \<open>log_file\<close> is \<open>None\<close> when no log file was opened, and otherwise the snapshots
  appended to it. The constructor is modelled where the creation of every counter
  succeeds (the \<^verbatim>\<open>CHECK\<close> exits are not taken).
\<close>

record ShenandoahHeapRegionCounters =
  last_sample_millis :: jlong
  perf_created :: bool
  timestamp :: jlong
  max_regions :: nat
  region_size :: size_t
  status :: jlong
  regions_data :: "jlong list"
  log_file :: "(jlong list \<times> jlong \<times> jlong \<times> nat \<times> size_t) list option"
  trace :: "event list"

definition construct :: "globals \<Rightarrow> ShenandoahHeap \<Rightarrow> ShenandoahHeapRegionCounters" where
  "construct g heap =
     (if UsePerfData g \<and> ShenandoahRegionSampling g then
        \<lparr>last_sample_millis = 0, perf_created = True, timestamp = 0,
         max_regions = num_regions heap,
         region_size = drop_bit 10 (region_size_bytes g),
         status = 0,
         regions_data = replicate (num_regions heap) 0,
         log_file = (if ShenandoahLogRegionSampling g then Some [] else None),
         trace = []\<rparr>
      else
        \<lparr>last_sample_millis = 0, perf_created = False, timestamp = 0, max_regions = 0,
         region_size = 0, status = 0, regions_data = [], log_file = None, trace = []\<rparr>)"

definition set_status ::
  "jlong \<Rightarrow> ShenandoahHeapRegionCounters \<Rightarrow> ShenandoahHeapRegionCounters" where
  "set_status v s = s\<lparr>status := v, trace := trace s @ [SetStatus v]\<rparr>"

definition set_timestamp ::
  "jlong \<Rightarrow> ShenandoahHeapRegionCounters \<Rightarrow> ShenandoahHeapRegionCounters" where
  "set_timestamp v s = s\<lparr>timestamp := v, trace := trace s @ [SetTimestamp v]\<rparr>"

definition lock_heap :: "ShenandoahHeapRegionCounters \<Rightarrow> ShenandoahHeapRegionCounters" where
  "lock_heap s = s\<lparr>trace := trace s @ [LockHeap]\<rparr>"

definition unlock_heap :: "ShenandoahHeapRegionCounters \<Rightarrow> ShenandoahHeapRegionCounters" where
  "unlock_heap s = s\<lparr>trace := trace s @ [UnlockHeap]\<rparr>"

definition set_region ::
  "nat \<Rightarrow> jlong \<Rightarrow> ShenandoahHeapRegionCounters \<Rightarrow> ShenandoahHeapRegionCounters" where
  "set_region i v s =
     s\<lparr>regions_data := (regions_data s)[i := v], trace := trace s @ [SetRegion i v]\<rparr>"

definition write_snapshot ::
  "nat \<Rightarrow> size_t \<Rightarrow> ShenandoahHeapRegionCounters \<Rightarrow> ShenandoahHeapRegionCounters" where
  "write_snapshot n rs s =
     s\<lparr>log_file := map_option (\<lambda>l. l @ [(regions_data s, timestamp s, status s, n, rs)])
                     (log_file s),
       trace := trace s @ [WriteSnapshot (regions_data s) (timestamp s) (status s) n rs]\<rparr>"

text \<open>
  The loop of lines 108 to 122, by recursion on the regions from index \<open>i\<close> on. A write
  past the end of \<^verbatim>\<open>_regions_data\<close> is an error.
\<close>

fun region_loop ::
  "layout \<Rightarrow> size_t \<Rightarrow> ShenandoahHeapRegion list \<Rightarrow> nat \<Rightarrow> ShenandoahHeapRegionCounters
   \<Rightarrow> error + ShenandoahHeapRegionCounters" where
  "region_loop L rs [] i s = Inr s"
| "region_loop L rs (r # rest) i s =
     (case region_data L rs r of
        Inl e \<Rightarrow> Inl e
      | Inr data \<Rightarrow>
          if i < length (regions_data s)
          then region_loop L rs rest (Suc i) (set_region i data s)
          else Inl IndexOutOfBounds)"

text \<open>
  Lines 97 to 128: the body that runs once the gate is passed. \<open>elapsed\<close> is the value of
  \<^verbatim>\<open>os::elapsed_counter()\<close>.
\<close>

definition sampling_pass ::
  "globals \<Rightarrow> jlong \<Rightarrow> ShenandoahHeap \<Rightarrow> ShenandoahHeapRegionCounters
   \<Rightarrow> error + ShenandoahHeapRegionCounters" where
  "sampling_pass g elapsed heap s =
     (case encode_heap_status (ASSERT g) heap of
        Inl e \<Rightarrow> Inl e
      | Inr st \<Rightarrow>
          if \<not> perf_created s then Inl NullPointer
          else
            (case region_loop (bit_layout g) (region_size_bytes g) (regions heap) 0
                    (lock_heap (set_timestamp elapsed (set_status st s))) of
               Inl e \<Rightarrow> Inl e
             | Inr s' \<Rightarrow>
                 if ShenandoahLogRegionSampling g then
                   (case log_file s' of
                      None \<Rightarrow> Inl NullPointer
                    | Some l \<Rightarrow>
                        Inr (unlock_heap
                              (write_snapshot (num_regions heap) (region_size_bytes g) s')))
                 else Inr (unlock_heap s')))"

text \<open>
  The gate of lines 94 and 95. \<open>interval_elapsed\<close> is the comparison
  \<^verbatim>\<open>current - last > ShenandoahRegionSamplingRate\<close>, a signed comparison of a \<^verbatim>\<open>jlong\<close>
  difference with an \<^verbatim>\<open>int\<close>. \<open>cmpxchg dest compare exchange\<close> returns the new content of
  the destination and the value found there. \<open>try_acquire\<close> is the whole condition: the
  exchange is attempted only when the comparison holds.
\<close>

definition interval_elapsed :: "jint \<Rightarrow> jlong \<Rightarrow> jlong \<Rightarrow> bool" where
  "interval_elapsed rate current last_read = (sint (current - last_read) > sint rate)"

definition cmpxchg :: "jlong \<Rightarrow> jlong \<Rightarrow> jlong \<Rightarrow> jlong \<times> jlong" where
  "cmpxchg dest compare_value exchange_value =
     (if dest = compare_value then (exchange_value, dest) else (dest, dest))"

definition try_acquire :: "jint \<Rightarrow> jlong \<Rightarrow> jlong \<Rightarrow> jlong \<Rightarrow> bool \<times> jlong" where
  "try_acquire rate current last_read dest =
     (if interval_elapsed rate current last_read then
        (case cmpxchg dest last_read current of (new, old) \<Rightarrow> (old = last_read, new))
      else (False, dest))"

text \<open>
  \<^verbatim>\<open>update\<close> returns nothing; the model returns which branch was taken beside the new
  state. \<open>update_from\<close> is the part of \<^verbatim>\<open>update\<close> after \<^verbatim>\<open>_last_sample_millis\<close> has been
  read into the local \<^verbatim>\<open>last\<close> (\<open>last_read\<close> here): between the read and the exchange
  another thread may have changed the field, so \<open>last_read\<close> need not be its content any
  more. \<open>update\<close> is a call that runs undisturbed. \<open>current\<close> is
  \<^verbatim>\<open>nanos_to_millis(os::javaTimeNanos())\<close>.
\<close>

datatype SampleOutcome = Skipped | Sampled

definition update_from ::
  "globals \<Rightarrow> jlong \<Rightarrow> jlong \<Rightarrow> ShenandoahHeap \<Rightarrow> jlong \<Rightarrow> ShenandoahHeapRegionCounters
   \<Rightarrow> error + (SampleOutcome \<times> ShenandoahHeapRegionCounters)" where
  "update_from g current elapsed heap last_read s =
     (case try_acquire (ShenandoahRegionSamplingRate g) current last_read
             (last_sample_millis s) of
        (True, new) \<Rightarrow>
          (case sampling_pass g elapsed heap (s\<lparr>last_sample_millis := new\<rparr>) of
             Inl e \<Rightarrow> Inl e
           | Inr s' \<Rightarrow> Inr (Sampled, s'))
      | (False, new) \<Rightarrow> Inr (Skipped, s\<lparr>last_sample_millis := new\<rparr>))"

definition update ::
  "globals \<Rightarrow> jlong \<Rightarrow> jlong \<Rightarrow> ShenandoahHeap \<Rightarrow> ShenandoahHeapRegionCounters
   \<Rightarrow> error + (SampleOutcome \<times> ShenandoahHeapRegionCounters)" where
  "update g current elapsed heap s =
     (if ShenandoahRegionSampling g
      then update_from g current elapsed heap (last_sample_millis s) s
      else Inr (Skipped, s))"


section \<open>Layouts and decoding\<close>

text \<open>
  The nine fields of the per-region word as pairs of a shift and a mask, in the order in
  which \<^verbatim>\<open>update\<close> writes them, and the bits a field occupies in the word.
\<close>

definition field_table :: "layout \<Rightarrow> (nat \<times> jlong) list" where
  "field_table L =
     [(USED_SHIFT L, PERCENT_MASK L), (LIVE_SHIFT L, PERCENT_MASK L),
      (TLAB_SHIFT L, PERCENT_MASK L), (GCLAB_SHIFT L, PERCENT_MASK L),
      (PLAB_SHIFT L, PERCENT_MASK L), (SHARED_SHIFT L, PERCENT_MASK L),
      (AGE_SHIFT L, AGE_MASK L), (AFFILIATION_SHIFT L, AFFILIATION_MASK L),
      (STATUS_SHIFT L, STATUS_MASK L)]"

definition placed :: "nat \<times> jlong \<Rightarrow> jlong" where
  "placed f = push_bit (fst f) (snd f)"

fun disjoint_fields :: "(nat \<times> jlong) list \<Rightarrow> bool" where
  "disjoint_fields [] = True"
| "disjoint_fields (f # fs) =
     (list_all (\<lambda>g. placed f AND placed g = 0) fs \<and> disjoint_fields fs)"

text \<open>
  A layout is well formed when no field loses a bit of its mask by the shift (it lies
  within the 64 bits of the word) and no two fields share a bit.
\<close>

definition layout_ok :: "layout \<Rightarrow> bool" where
  "layout_ok L =
     (list_all (\<lambda>f. drop_bit (fst f) (placed f) = snd f) (field_table L) \<and>
      disjoint_fields (field_table L))"

text \<open>
  Modelled from the spec: the header with the values of the masks and shifts is not
  among the sources. This is a layout of the shape the spec describes: six ratios of
  7 bits, then the age, an affiliation of 2 bits and the state, in a 64-bit word.
\<close>

definition reference_layout :: layout where
  "reference_layout =
     \<lparr>PERCENT_MASK = 0x7f, AGE_MASK = 0x1f, AFFILIATION_MASK = 0x03, STATUS_MASK = 0x3f,
      USED_SHIFT = 0, LIVE_SHIFT = 7, TLAB_SHIFT = 14, GCLAB_SHIFT = 21,
      SHARED_SHIFT = 28, PLAB_SHIFT = 35, AGE_SHIFT = 51, AFFILIATION_SHIFT = 56,
      STATUS_SHIFT = 58\<rparr>"

text \<open>\<open>fits m v\<close>: the value \<open>v\<close> has no bit outside the mask \<open>m\<close>.\<close>

definition fits :: "jlong \<Rightarrow> jlong \<Rightarrow> bool" where
  "fits m v = (v AND m = v)"

text \<open>
  Modelled from the spec: the source has no decoder. The spec asks for one that extracts
  each field by its shift and mask.
\<close>

definition decode_field :: "nat \<Rightarrow> jlong \<Rightarrow> jlong \<Rightarrow> jlong" where
  "decode_field shift m w = drop_bit shift w AND m"

record RegionSample =
  used_ratio :: jlong
  live_ratio :: jlong
  tlab_ratio :: jlong
  gclab_ratio :: jlong
  plab_ratio :: jlong
  shared_ratio :: jlong
  sample_age :: jlong
  sample_affiliation :: "ShenandoahRegionAffiliation option"
  sample_state :: jlong

definition decode_affiliation :: "jlong \<Rightarrow> ShenandoahRegionAffiliation option" where
  "decode_affiliation v =
     (if v = 0 then Some FREE
      else if v = 1 then Some YOUNG_GENERATION
      else if v = 2 then Some OLD_GENERATION
      else None)"

definition decode_region :: "layout \<Rightarrow> jlong \<Rightarrow> RegionSample" where
  "decode_region L w =
     \<lparr>used_ratio = decode_field (USED_SHIFT L) (PERCENT_MASK L) w,
      live_ratio = decode_field (LIVE_SHIFT L) (PERCENT_MASK L) w,
      tlab_ratio = decode_field (TLAB_SHIFT L) (PERCENT_MASK L) w,
      gclab_ratio = decode_field (GCLAB_SHIFT L) (PERCENT_MASK L) w,
      plab_ratio = decode_field (PLAB_SHIFT L) (PERCENT_MASK L) w,
      shared_ratio = decode_field (SHARED_SHIFT L) (PERCENT_MASK L) w,
      sample_age = decode_field (AGE_SHIFT L) (AGE_MASK L) w,
      sample_affiliation =
        decode_affiliation (decode_field (AFFILIATION_SHIFT L) (AFFILIATION_MASK L) w),
      sample_state = decode_field (STATUS_SHIFT L) (STATUS_MASK L) w\<rparr>"

text \<open>
  The ratio the spec defines, on unbounded integers: \<open>100 * raw / capacity\<close>, rounded
  down.
\<close>

definition exact_ratio :: "size_t \<Rightarrow> size_t \<Rightarrow> nat" where
  "exact_ratio raw rs = 100 * unat raw div unat rs"

text \<open>
  A region is a valid sample for a layout when its age, affiliation and state fit their
  fields.
\<close>

definition valid_sample :: "layout \<Rightarrow> ShenandoahHeapRegion \<Rightarrow> bool" where
  "valid_sample L r =
     (fits (AGE_MASK L) (ucast (age r)) \<and>
      fits (AFFILIATION_MASK L) (affiliation_ordinal (affiliation r)) \<and>
      fits (STATUS_MASK L) (scast (state_ordinal r)))"

section \<open>Concurrent calls\<close>

text \<open>
  Several threads inside \<^verbatim>\<open>update\<close> at once, interleaved at the accesses to
  \<^verbatim>\<open>_last_sample_millis\<close>. A thread has read its clock (\<open>t_now\<close>) and is at one of four
  points: before the read of the field, between the read and the gate (holding the value
  read), past a successful exchange and about to run the pass, or returned. The shared
  state is the field and the number of passes run so far.
\<close>

datatype pc = AtStart | HasRead jlong | Won | Returned SampleOutcome

record thread =
  t_now :: jlong
  t_pc :: pc

record config =
  shared_last :: jlong
  threads :: "thread list"
  passes :: nat

definition set_pc :: "nat \<Rightarrow> pc \<Rightarrow> config \<Rightarrow> config" where
  "set_pc i p c = c\<lparr>threads := (threads c)[i := (threads c ! i)\<lparr>t_pc := p\<rparr>]\<rparr>"

text \<open>One step of thread \<open>i\<close>; a thread that has returned, or does not exist, does nothing.\<close>

definition thread_step :: "jint \<Rightarrow> nat \<Rightarrow> config \<Rightarrow> config" where
  "thread_step rate i c =
     (if i < length (threads c) then
        (case t_pc (threads c ! i) of
           AtStart \<Rightarrow> set_pc i (HasRead (shared_last c)) c
         | HasRead last_read \<Rightarrow>
             (case try_acquire rate (t_now (threads c ! i)) last_read (shared_last c) of
                (True, new) \<Rightarrow> set_pc i Won (c\<lparr>shared_last := new\<rparr>)
              | (False, new) \<Rightarrow> set_pc i (Returned Skipped) (c\<lparr>shared_last := new\<rparr>))
         | Won \<Rightarrow> set_pc i (Returned Sampled) (c\<lparr>passes := Suc (passes c)\<rparr>)
         | Returned outcome \<Rightarrow> c)
      else c)"

fun run_schedule :: "jint \<Rightarrow> nat list \<Rightarrow> config \<Rightarrow> config" where
  "run_schedule rate [] c = c"
| "run_schedule rate (i # sched) c = run_schedule rate sched (thread_step rate i c)"

definition initial_config :: "jlong \<Rightarrow> jlong list \<Rightarrow> config" where
  "initial_config l nows =
     \<lparr>shared_last = l, threads = map (\<lambda>n. \<lparr>t_now = n, t_pc = AtStart\<rparr>) nows, passes = 0\<rparr>"

definition all_returned :: "config \<Rightarrow> bool" where
  "all_returned c = list_all (\<lambda>t. case t_pc t of Returned outcome \<Rightarrow> True | _ \<Rightarrow> False) (threads c)"

definition sampled_count :: "config \<Rightarrow> nat" where
  "sampled_count c = length (filter (\<lambda>t. t_pc t = Returned Sampled) (threads c))"

text \<open>
  Calls within one sampling interval: every call's clock reading passes the gate against
  the timestamp \<open>l\<close> of the last sample, and no reading passes it against another's.
\<close>

definition one_interval :: "jint \<Rightarrow> jlong \<Rightarrow> jlong list \<Rightarrow> bool" where
  "one_interval rate l nows =
     (list_all (\<lambda>n. interval_elapsed rate n l) nows \<and>
      list_all (\<lambda>n. list_all (\<lambda>m. \<not> interval_elapsed rate n m) nows) nows)"

section \<open>Auxiliary definitions\<close>

text \<open>
  The definitions of this section are not translations of source functions: they name
  what the statements below talk about.
\<close>

text \<open>
  The heap reports a phase \<^verbatim>\<open>encode_phase\<close> accepts in the given build: one of the three
  phases is in progress, or the heap is idle, or assertions are compiled out.
\<close>

definition phase_recognised :: "bool \<Rightarrow> ShenandoahHeap \<Rightarrow> bool" where
  "phase_recognised debug heap =
     (is_evacuation_in_progress heap \<or> is_update_refs_in_progress heap \<or>
      is_concurrent_mark_in_progress heap \<or> is_idle heap \<or> \<not> debug)"

text \<open>
  One operand of the \<^verbatim>\<open>|=\<close> lines of \<^verbatim>\<open>update\<close>, and the word they build when the
  region size is not zero.
\<close>

definition put_field :: "nat \<Rightarrow> jlong \<Rightarrow> jlong \<Rightarrow> jlong" where
  "put_field shift m v = push_bit shift (v AND m)"

definition region_word :: "layout \<Rightarrow> size_t \<Rightarrow> ShenandoahHeapRegion \<Rightarrow> jlong" where
  "region_word L rs r =
     (put_field (USED_SHIFT L) (PERCENT_MASK L) (100 * used r div rs) OR
      put_field (LIVE_SHIFT L) (PERCENT_MASK L) (100 * get_live_data_bytes r div rs) OR
      put_field (TLAB_SHIFT L) (PERCENT_MASK L) (100 * get_tlab_allocs r div rs) OR
      put_field (GCLAB_SHIFT L) (PERCENT_MASK L) (100 * get_gclab_allocs r div rs) OR
      put_field (PLAB_SHIFT L) (PERCENT_MASK L) (100 * get_plab_allocs r div rs) OR
      put_field (SHARED_SHIFT L) (PERCENT_MASK L) (100 * get_shared_allocs r div rs) OR
      put_field (AGE_SHIFT L) (AGE_MASK L) (ucast (age r)) OR
      put_field (AFFILIATION_SHIFT L) (AFFILIATION_MASK L)
        (affiliation_ordinal (affiliation r)) OR
      put_field (STATUS_SHIFT L) (STATUS_MASK L) (scast (state_ordinal r)))"

text \<open>
  The six decoded ratios and the six byte counts of a region, in the order of the source
  lines, and the condition that \<open>100 * raw\<close> does not wrap in \<^verbatim>\<open>size_t\<close>.
\<close>

definition ratios :: "RegionSample \<Rightarrow> jlong list" where
  "ratios smp = [used_ratio smp, live_ratio smp, tlab_ratio smp, gclab_ratio smp,
                 plab_ratio smp, shared_ratio smp]"

definition raw_counts :: "ShenandoahHeapRegion \<Rightarrow> size_t list" where
  "raw_counts r = [used r, get_live_data_bytes r, get_tlab_allocs r, get_gclab_allocs r,
                   get_plab_allocs r, get_shared_allocs r]"

definition no_wrap :: "size_t \<Rightarrow> bool" where
  "no_wrap raw = (100 * unat raw < 2 ^ 64)"

text \<open>The counter writes of the loop over the regions, and the state it leaves.\<close>

fun region_events ::
  "layout \<Rightarrow> size_t \<Rightarrow> nat \<Rightarrow> ShenandoahHeapRegion list \<Rightarrow> event list" where
  "region_events L rs i [] = []"
| "region_events L rs i (r # rgs) =
     SetRegion i (region_word L rs r) # region_events L rs (Suc i) rgs"

definition loop_result ::
  "layout \<Rightarrow> size_t \<Rightarrow> ShenandoahHeapRegion list \<Rightarrow> nat \<Rightarrow> ShenandoahHeapRegionCounters
   \<Rightarrow> ShenandoahHeapRegionCounters" where
  "loop_result L rs rgs i s =
     s\<lparr>regions_data := take i (regions_data s) @ map (region_word L rs) rgs @
                        drop (i + length rgs) (regions_data s),
       trace := trace s @ region_events L rs i rgs\<rparr>"


text \<open>
  The order the spec gives for a pass: scanning the events, a write of the timestamp
  counter is met before any write of the status counter.
\<close>

fun timestamp_before_status :: "event list \<Rightarrow> bool" where
  "timestamp_before_status [] = False"
| "timestamp_before_status (SetTimestamp v # evs) = True"
| "timestamp_before_status (SetStatus v # evs) = False"
| "timestamp_before_status (e # evs) = timestamp_before_status evs"

text \<open>
  The events of a completed pass, the content of \<^verbatim>\<open>_regions_data\<close> after it and the
  state it leaves, for the status word \<open>st\<close>.
\<close>

definition pass_events ::
  "globals \<Rightarrow> jlong \<Rightarrow> ShenandoahHeap \<Rightarrow> jlong \<Rightarrow> jlong list \<Rightarrow> event list" where
  "pass_events g elapsed heap st words =
     [SetStatus st, SetTimestamp elapsed, LockHeap] @
     map (\<lambda>i. SetRegion i (region_word (bit_layout g) (region_size_bytes g) (regions heap ! i)))
       [0..<num_regions heap] @
     (if ShenandoahLogRegionSampling g
      then [WriteSnapshot words elapsed st (num_regions heap) (region_size_bytes g)] else []) @
     [UnlockHeap]"

definition pass_words ::
  "globals \<Rightarrow> ShenandoahHeap \<Rightarrow> ShenandoahHeapRegionCounters \<Rightarrow> jlong list" where
  "pass_words g heap s =
     map (region_word (bit_layout g) (region_size_bytes g)) (regions heap) @
     drop (num_regions heap) (regions_data s)"

definition pass_result ::
  "globals \<Rightarrow> jlong \<Rightarrow> ShenandoahHeap \<Rightarrow> jlong \<Rightarrow> ShenandoahHeapRegionCounters
   \<Rightarrow> ShenandoahHeapRegionCounters" where
  "pass_result g elapsed heap st s =
     s\<lparr>timestamp := elapsed, status := st, regions_data := pass_words g heap s,
       log_file :=
         (if ShenandoahLogRegionSampling g
          then map_option
                 (\<lambda>l. l @ [(pass_words g heap s, elapsed, st, num_regions heap,
                            region_size_bytes g)])
                 (log_file s)
          else log_file s),
       trace := trace s @ pass_events g elapsed heap st (pass_words g heap s)\<rparr>"

text \<open>
  The invariant of the gate under concurrent calls. Either no thread has won the exchange:
  the field still holds \<open>l\<close> and every thread is before its read or has read \<open>l\<close>. Or one
  thread \<open>w\<close> has won: the field holds its clock reading, it is about to run the pass or
  has run it, and every other thread is before its read, has read \<open>l\<close> or the winner's
  reading, or has returned without sampling.
\<close>

definition pc_of :: "config \<Rightarrow> nat \<Rightarrow> pc" where
  "pc_of c i = t_pc (threads c ! i)"

definition now_of :: "config \<Rightarrow> nat \<Rightarrow> jlong" where
  "now_of c i = t_now (threads c ! i)"

definition no_winner :: "jlong \<Rightarrow> config \<Rightarrow> bool" where
  "no_winner l c =
     (shared_last c = l \<and> passes c = 0 \<and>
      (\<forall>i < length (threads c). pc_of c i = AtStart \<or> pc_of c i = HasRead l))"

definition one_winner :: "jlong \<Rightarrow> nat \<Rightarrow> config \<Rightarrow> bool" where
  "one_winner l w c =
     (w < length (threads c) \<and> shared_last c = now_of c w \<and>
      (pc_of c w = Won \<and> passes c = 0 \<or> pc_of c w = Returned Sampled \<and> passes c = 1) \<and>
      (\<forall>i < length (threads c). i \<noteq> w \<longrightarrow>
         pc_of c i = AtStart \<or> pc_of c i = HasRead l \<or> pc_of c i = HasRead (now_of c w) \<or>
         pc_of c i = Returned Skipped))"

definition gate_inv :: "jlong \<Rightarrow> jlong list \<Rightarrow> config \<Rightarrow> bool" where
  "gate_inv l nows c =
     (map t_now (threads c) = nows \<and> (no_winner l c \<or> (\<exists>w. one_winner l w c)))"

text \<open>How far a thread has come: each of its steps takes it further until it returns.\<close>

fun pc_rank :: "pc \<Rightarrow> nat" where
  "pc_rank AtStart = 0"
| "pc_rank (HasRead v) = 1"
| "pc_rank Won = 2"
| "pc_rank (Returned outcome) = 3"

section \<open>Concrete inputs\<close>

text \<open>
  A heap of two regions of 100 bytes during a generational cycle: the old generation is
  active and marking, with concurrent old marking in progress. The first region is half
  used; the second reports more bytes in use than a region holds.
\<close>

definition example_region :: ShenandoahHeapRegion where
  "example_region =
     \<lparr>used = 50, get_live_data_bytes = 25, get_tlab_allocs = 0, get_gclab_allocs = 0,
      get_plab_allocs = 0, get_shared_allocs = 0, age = 3,
      affiliation = YOUNG_GENERATION, state_ordinal = 2\<rparr>"

definition burst_region :: ShenandoahHeapRegion where
  "burst_region =
     \<lparr>used = 200, get_live_data_bytes = 100, get_tlab_allocs = 0, get_gclab_allocs = 0,
      get_plab_allocs = 0, get_shared_allocs = 0, age = 0,
      affiliation = OLD_GENERATION, state_ordinal = 1\<rparr>"

definition example_heap :: ShenandoahHeap where
  "example_heap =
     \<lparr>is_idle = False, is_evacuation_in_progress = False,
      is_update_refs_in_progress = False, is_concurrent_mark_in_progress = True,
      is_generational = True, active_generation = Some OLD,
      is_concurrent_old_mark_in_progress = True,
      is_degenerated_gc_in_progress = False, is_full_gc_in_progress = False,
      regions = [example_region, burst_region]\<rparr>"

definition example_globals :: globals where
  "example_globals =
     \<lparr>UsePerfData = True, ShenandoahRegionSampling = True,
      ShenandoahRegionSamplingRate = 40, ShenandoahLogRegionSampling = True,
      ASSERT = True, bit_layout = reference_layout, region_size_bytes = 100\<rparr>"

text \<open>
  The sampler built for that heap after one pass at clock reading 100 with an elapsed
  counter of 7, and after a second pass at 200 with an elapsed counter of 9.
\<close>

definition first_snapshot :: "jlong list \<times> jlong \<times> jlong \<times> nat \<times> size_t" where
  "first_snapshot = ([0x918000000000cb2, 0x600000000003248], 7, 4, 2, 100)"

definition first_pass_events :: "event list" where
  "first_pass_events =
     [SetStatus 4, SetTimestamp 7, LockHeap, SetRegion 0 0x918000000000cb2,
      SetRegion 1 0x600000000003248,
      WriteSnapshot [0x918000000000cb2, 0x600000000003248] 7 4 2 100, UnlockHeap]"

definition after_first_pass :: ShenandoahHeapRegionCounters where
  "after_first_pass =
     \<lparr>last_sample_millis = 100, perf_created = True, timestamp = 7, max_regions = 2,
      region_size = 0, status = 4,
      regions_data = [0x918000000000cb2, 0x600000000003248],
      log_file = Some [first_snapshot], trace = first_pass_events\<rparr>"

definition after_second_pass :: ShenandoahHeapRegionCounters where
  "after_second_pass =
     \<lparr>last_sample_millis = 200, perf_created = True, timestamp = 9, max_regions = 2,
      region_size = 0, status = 4,
      regions_data = [0x918000000000cb2, 0x600000000003248],
      log_file =
        Some [first_snapshot, ([0x918000000000cb2, 0x600000000003248], 9, 4, 2, 100)],
      trace =
        first_pass_events @
        [SetStatus 4, SetTimestamp 9, LockHeap, SetRegion 0 0x918000000000cb2,
         SetRegion 1 0x600000000003248,
         WriteSnapshot [0x918000000000cb2, 0x600000000003248] 9 4 2 100, UnlockHeap]\<rparr>"

section \<open>Properties of the status word\<close>

lemma encode_phase_cases:
  "encode_phase debug heap = Inr 0 \<or> encode_phase debug heap = Inr 1 \<or>
   encode_phase debug heap = Inr 2 \<or> encode_phase debug heap = Inr 3 \<or>
   encode_phase debug heap = Inl AssertionFailure"
  by (simp add: encode_phase_def)

lemma encode_phase_returns:
  "phase_recognised debug heap \<Longrightarrow> \<exists>phase. encode_phase debug heap = Inr phase"
  by (auto simp: encode_phase_def phase_recognised_def)

lemma unrecognised_phase_fails:
  "\<not> phase_recognised debug heap \<Longrightarrow>
   encode_heap_status debug heap = Inl AssertionFailure"
  by (simp add: encode_heap_status_def encode_phase_def phase_recognised_def)

text \<open>
  The old-mark flag bit is the low bit of the OLD lane. With the old generation active and
  evacuating (ordinal 2) during concurrent old marking, the OLD lane reads 3.
\<close>

lemma old_lane_shares_old_mark_bit:
  "encode_heap_status True (example_heap\<lparr>is_evacuation_in_progress := True\<rparr>) = Inr 12 \<and>
   decode_field (get_generation_shift OLD) 3 12 = 3"
  by (simp add: example_heap_def encode_heap_status_def encode_phase_def decode_field_def)

text \<open>
  C1. When the heap reports itself idle, \<open>encode_heap_status\<close> returns the zero word,
  in either build and whatever the other queries answer: the phases, the generation and
  the concurrent-old-mark, degenerated and full-collection flags are not looked at.
\<close>

theorem idle_status_is_zero:
  "is_idle heap \<Longrightarrow> encode_heap_status debug heap = Inr 0"
  by (simp add: encode_heap_status_def)

text \<open>At an idle heap on which all three flags are raised.\<close>

theorem idle_status_is_zero_witness:
  "is_idle (example_heap\<lparr>is_idle := True, is_degenerated_gc_in_progress := True,
                         is_full_gc_in_progress := True\<rparr>) \<and>
   is_concurrent_old_mark_in_progress
     (example_heap\<lparr>is_idle := True, is_degenerated_gc_in_progress := True,
                   is_full_gc_in_progress := True\<rparr>) \<and>
   encode_heap_status True
     (example_heap\<lparr>is_idle := True, is_degenerated_gc_in_progress := True,
                   is_full_gc_in_progress := True\<rparr>) = Inr 0"
  using idle_status_is_zero
    [of "example_heap\<lparr>is_idle := True, is_degenerated_gc_in_progress := True,
                      is_full_gc_in_progress := True\<rparr>" True]
  by (simp add: example_heap_def)

text \<open>
  C2. For a generational heap that is not idle, has an active generation and reports a
  phase of ordinal \<open>phase\<close>, \<open>encode_heap_status\<close> returns a word, and that word is the
  phase ordinal shifted to the lane of the active generation (shift 0 for GLOBAL, 2 for
  OLD, 4 for YOUNG), combined by OR with bit 2 when concurrent old marking is in
  progress and with the degenerated and full flags at bits 6 and 7. Read back, the lane
  of the active generation holds the phase ordinal; in the OLD lane, whose low bit is
  the old-mark flag bit, it holds the ordinal combined with the flag. Bit 2 is set
  whenever concurrent old marking is in progress.
\<close>

theorem generational_status:
  assumes "\<not> is_idle heap" "is_generational heap" "active_generation heap = Some gen"
    "encode_phase debug heap = Inr phase"
  shows "\<exists>w. encode_heap_status debug heap = Inr w \<and>
     w = push_bit (get_generation_shift gen) (ucast phase)
         OR (if is_concurrent_old_mark_in_progress heap then push_bit 2 1 else 0)
         OR (if is_degenerated_gc_in_progress heap then push_bit 6 1 else 0)
         OR (if is_full_gc_in_progress heap then push_bit 7 1 else 0) \<and>
     get_generation_shift gen = (case gen of GLOBAL \<Rightarrow> 0 | OLD \<Rightarrow> 2 | YOUNG \<Rightarrow> 4) \<and>
     decode_field (get_generation_shift gen) 3 w =
       ucast phase OR
       (if gen = OLD \<and> is_concurrent_old_mark_in_progress heap then 1 else 0) \<and>
     (is_concurrent_old_mark_in_progress heap \<longrightarrow> bit w 2)"
  using assms encode_phase_cases[of debug heap]
  by (cases gen) (auto simp: encode_heap_status_def Let_def decode_field_def)

text \<open>
  The case the claim singles out: the old generation active and marking (ordinal 1) with
  concurrent old marking in progress. The word is 4: the OLD lane reads 1 and bit 2 is
  set.
\<close>

theorem generational_status_witness:
  "\<not> is_idle example_heap \<and> is_generational example_heap \<and>
   active_generation example_heap = Some OLD \<and>
   is_concurrent_old_mark_in_progress example_heap \<and>
   encode_phase True example_heap = Inr 1 \<and>
   encode_heap_status True example_heap = Inr 4 \<and>
   decode_field (get_generation_shift OLD) 3 4 = 1 \<and> bit (4 :: jlong) 2"
  using generational_status[of example_heap OLD True 1]
  by (simp add: example_heap_def encode_phase_def encode_heap_status_def decode_field_def)



text \<open>
  C10. \<open>encode_phase\<close> tests evacuation first, then update-references, then concurrent
  marking: it returns 2 whenever evacuation is in progress, 3 when update-references is
  and evacuation is not, and 1 when only concurrent marking is. When none of the three is
  in progress it returns 0 if the heap reports idle; if the heap does not, the assertion
  fails in a debug build, and a product build returns 0.
\<close>

theorem phase_precedence:
  "(is_evacuation_in_progress heap \<longrightarrow> encode_phase debug heap = Inr 2) \<and>
   (\<not> is_evacuation_in_progress heap \<and> is_update_refs_in_progress heap \<longrightarrow>
      encode_phase debug heap = Inr 3) \<and>
   (\<not> is_evacuation_in_progress heap \<and> \<not> is_update_refs_in_progress heap \<and>
    is_concurrent_mark_in_progress heap \<longrightarrow> encode_phase debug heap = Inr 1) \<and>
   (\<not> is_evacuation_in_progress heap \<and> \<not> is_update_refs_in_progress heap \<and>
    \<not> is_concurrent_mark_in_progress heap \<longrightarrow>
      encode_phase debug heap =
        (if is_idle heap \<or> \<not> debug then Inr 0 else Inl AssertionFailure))"
  by (simp add: encode_phase_def)

text \<open>
  With all three phases reported at once, with update-references and marking, with
  marking alone, and with none on an idle and on a non-idle heap.
\<close>

theorem phase_precedence_witness:
  "encode_phase True (example_heap\<lparr>is_evacuation_in_progress := True,
       is_update_refs_in_progress := True\<rparr>) = Inr 2 \<and>
   encode_phase True (example_heap\<lparr>is_update_refs_in_progress := True\<rparr>) = Inr 3 \<and>
   encode_phase True example_heap = Inr 1 \<and>
   encode_phase True (example_heap\<lparr>is_concurrent_mark_in_progress := False,
       is_idle := True\<rparr>) = Inr 0 \<and>
   encode_phase True (example_heap\<lparr>is_concurrent_mark_in_progress := False\<rparr>)
     = Inl AssertionFailure \<and>
   encode_phase False (example_heap\<lparr>is_concurrent_mark_in_progress := False\<rparr>) = Inr 0"
  using
    phase_precedence[of "example_heap\<lparr>is_evacuation_in_progress := True,
       is_update_refs_in_progress := True\<rparr>" True]
    phase_precedence[of "example_heap\<lparr>is_update_refs_in_progress := True\<rparr>" True]
    phase_precedence[of example_heap True]
    phase_precedence[of "example_heap\<lparr>is_concurrent_mark_in_progress := False,
       is_idle := True\<rparr>" True]
    phase_precedence[of "example_heap\<lparr>is_concurrent_mark_in_progress := False\<rparr>" True]
    phase_precedence[of "example_heap\<lparr>is_concurrent_mark_in_progress := False\<rparr>" False]
  by (simp add: example_heap_def)

section \<open>Properties of the per-region word\<close>

lemma region_data_word:
  "region_data L rs r = (if rs = 0 then Inl DivisionByZero else Inr (region_word L rs r))"
  unfolding region_data_def region_word_def put_field_def Let_def
  by (simp only: or.left_neutral or.assoc)

lemma decode_field_or:
  "decode_field b m (x OR y) = decode_field b m x OR decode_field b m y"
  by (rule bit_word_eqI) (auto simp: decode_field_def bit_simps)

lemma decode_field_own:
  assumes a: "drop_bit b (placed (b, m)) = m"
  shows "decode_field b m (put_field b m v) = v AND m"
proof (rule bit_word_eqI)
  fix n assume n: "n < LENGTH(64)"
  have "bit m n = bit (drop_bit b (push_bit b m)) n" using a by (simp add: placed_def)
  also have "\<dots> = (b + n < 64 \<and> bit m n)"
    by (simp add: bit_drop_bit_eq bit_push_bit_iff)
  finally have *: "bit m n \<Longrightarrow> b + n < 64" by simp
  show "bit (decode_field b m (put_field b m v)) n = bit (v AND m) n"
    using *
    by (simp add: decode_field_def put_field_def bit_and_iff bit_drop_bit_eq bit_push_bit_iff)
      blast
qed

lemma decode_field_other:
  assumes "placed (a, m) AND placed (b, m') = 0"
  shows "decode_field b m' (put_field a m v) = 0"
proof (rule bit_word_eqI)
  fix n assume n: "n < LENGTH(64)"
  have "\<not> bit (placed (a, m) AND placed (b, m')) (b + n)" using assms by simp
  then show "bit (decode_field b m' (put_field a m v)) n = bit (0 :: 64 word) n"
    by (auto simp: decode_field_def placed_def put_field_def bit_simps)
qed

lemma decode_field_other':
  "placed (b, m') AND placed (a, m) = 0 \<Longrightarrow> decode_field b m' (put_field a m v) = 0"
  by (rule decode_field_other) (simp add: and.commute)

lemmas decode_simps = decode_field_or decode_field_own decode_field_other decode_field_other'

text \<open>In a well-formed layout every field of the word reads back as what was put there.\<close>

lemma decode_region_word:
  assumes "layout_ok L"
  shows "decode_field (USED_SHIFT L) (PERCENT_MASK L) (region_word L rs r) =
           (100 * used r div rs) AND PERCENT_MASK L"
    and "decode_field (LIVE_SHIFT L) (PERCENT_MASK L) (region_word L rs r) =
           (100 * get_live_data_bytes r div rs) AND PERCENT_MASK L"
    and "decode_field (TLAB_SHIFT L) (PERCENT_MASK L) (region_word L rs r) =
           (100 * get_tlab_allocs r div rs) AND PERCENT_MASK L"
    and "decode_field (GCLAB_SHIFT L) (PERCENT_MASK L) (region_word L rs r) =
           (100 * get_gclab_allocs r div rs) AND PERCENT_MASK L"
    and "decode_field (PLAB_SHIFT L) (PERCENT_MASK L) (region_word L rs r) =
           (100 * get_plab_allocs r div rs) AND PERCENT_MASK L"
    and "decode_field (SHARED_SHIFT L) (PERCENT_MASK L) (region_word L rs r) =
           (100 * get_shared_allocs r div rs) AND PERCENT_MASK L"
    and "decode_field (AGE_SHIFT L) (AGE_MASK L) (region_word L rs r) =
           ucast (age r) AND AGE_MASK L"
    and "decode_field (AFFILIATION_SHIFT L) (AFFILIATION_MASK L) (region_word L rs r) =
           affiliation_ordinal (affiliation r) AND AFFILIATION_MASK L"
    and "decode_field (STATUS_SHIFT L) (STATUS_MASK L) (region_word L rs r) =
           scast (state_ordinal r) AND STATUS_MASK L"
  using assms
  by (simp_all add: layout_ok_def field_table_def region_word_def decode_simps)

lemma decode_region_word_ratios:
  "layout_ok L \<Longrightarrow>
   ratios (decode_region L (region_word L rs r)) =
     map (\<lambda>raw. (100 * raw div rs) AND PERCENT_MASK L) (raw_counts r)"
  by (simp add: ratios_def raw_counts_def decode_region_def decode_region_word)

lemma reference_layout_ok: "layout_ok reference_layout"
  by (simp add: layout_ok_def field_table_def reference_layout_def placed_def)

lemma fits_and: "fits m v \<Longrightarrow> v AND m = v"
  by (simp add: fits_def)

text \<open>In the reference layout every percentage from 0 to 100 fits the seven-bit field.\<close>

lemma percent_fits_seven_bits:
  assumes "v \<le> 100"
  shows "fits (PERCENT_MASK reference_layout) v"
proof -
  have "uint v \<le> 100" using assms by (simp add: word_le_def)
  then have "uint v < 2 ^ 7" by simp
  then have "v AND mask 7 = v" by (simp only: mask_eq_iff)
  then show ?thesis by (simp add: fits_def reference_layout_def mask_eq_exp_minus_1)
qed

text \<open>Without wrap-around the \<^verbatim>\<open>size_t\<close> quotient is the exact one.\<close>

lemma ratio_exact:
  fixes raw rs :: size_t
  assumes "no_wrap raw"
  shows "100 * raw div rs = of_nat (exact_ratio raw rs)"
proof -
  have "unat (100 * raw) = 100 * unat raw"
    using assms by (simp add: no_wrap_def unat_word_ariths)
  then have "unat (100 * raw div rs) = exact_ratio raw rs"
    by (simp add: unat_div exact_ratio_def)
  then show ?thesis by (metis of_nat_unat ucast_id)
qed

lemma exact_ratio_bound:
  assumes "no_wrap raw"
  shows "exact_ratio raw rs < 2 ^ 64"
proof -
  have "exact_ratio raw rs \<le> 100 * unat raw"
    unfolding exact_ratio_def by (rule div_le_dividend)
  also have "\<dots> < 2 ^ 64" using assms unfolding no_wrap_def .
  finally show ?thesis .
qed

text \<open>Masking with \<open>n\<close> low bits keeps the value modulo \<open>2 ^ n\<close>.\<close>

lemma truncate_mod:
  fixes k :: nat
  assumes "k < 2 ^ 64"
  shows "unat ((of_nat k :: jlong) AND mask n) = k mod 2 ^ n"
proof -
  have k: "unat (of_nat k :: jlong) = k" using assms by (simp add: unat_of_nat)
  have "(of_nat k :: jlong) AND mask n = take_bit n (of_nat k)"
    by (simp only: take_bit_eq_mask)
  then have "unat ((of_nat k :: jlong) AND mask n) = take_bit n (unat (of_nat k :: jlong))"
    by (simp only: unsigned_take_bit_eq)
  also have "\<dots> = k mod 2 ^ n" by (simp only: k take_bit_eq_mod)
  finally show ?thesis .
qed

lemma decode_affiliation_ordinal: "decode_affiliation (affiliation_ordinal a) = Some a"
  by (cases a) (simp_all add: decode_affiliation_def)

text \<open>
  C6. For a well-formed layout, a region size that is not zero and a region whose six byte
  counts times 100 do not wrap in \<^verbatim>\<open>size_t\<close>, \<open>region_data\<close> returns a word, whether or
  not a count exceeds the region size. The word is built from values that are masked
  first and shifted into place then (\<open>region_word\<close>), and each of its six ratio fields
  holds the exact quotient \<open>100 * raw div rs\<close> cut by the mask \<open>PERCENT_MASK\<close>; when
  the mask is \<open>n\<close> low bits, the field holds the exact quotient modulo \<open>2 ^ n\<close>.
\<close>

theorem ratios_are_truncated_percentages:
  assumes "layout_ok L" "rs \<noteq> 0" "list_all no_wrap (raw_counts r)"
  shows "\<exists>w. region_data L rs r = Inr w \<and> w = region_word L rs r \<and>
     ratios (decode_region L w) =
       map (\<lambda>raw. of_nat (exact_ratio raw rs) AND PERCENT_MASK L) (raw_counts r) \<and>
     (\<forall>n. PERCENT_MASK L = mask n \<longrightarrow>
        map unat (ratios (decode_region L w)) =
          map (\<lambda>raw. exact_ratio raw rs mod 2 ^ n) (raw_counts r))"
proof -
  have eq: "map (\<lambda>raw. (100 * raw div rs) AND PERCENT_MASK L) (raw_counts r) =
        map (\<lambda>raw. of_nat (exact_ratio raw rs) AND PERCENT_MASK L) (raw_counts r)"
    using assms(3) by (simp add: list_all_iff ratio_exact)
  have "unat ((of_nat (exact_ratio raw rs) :: jlong) AND mask n) = exact_ratio raw rs mod 2 ^ n"
    if "raw \<in> set (raw_counts r)" for raw n
  proof -
    from that assms(3) have "no_wrap raw" by (simp add: list_all_iff)
    then show ?thesis by (rule truncate_mod[OF exact_ratio_bound])
  qed
  then have md: "map unat (map (\<lambda>raw. (of_nat (exact_ratio raw rs) :: jlong) AND mask n)
                    (raw_counts r)) =
          map (\<lambda>raw. exact_ratio raw rs mod 2 ^ n) (raw_counts r)" for n
    by auto
  show ?thesis
  proof (intro exI conjI allI impI)
    show "region_data L rs r = Inr (region_word L rs r)"
      using assms(2) by (simp add: region_data_word)
    show "region_word L rs r = region_word L rs r" ..
    show r: "ratios (decode_region L (region_word L rs r)) =
        map (\<lambda>raw. of_nat (exact_ratio raw rs) AND PERCENT_MASK L) (raw_counts r)"
      using assms(1) by (simp only: decode_region_word_ratios eq)
    fix n assume "PERCENT_MASK L = mask n"
    then show "map unat (ratios (decode_region L (region_word L rs r))) =
        map (\<lambda>raw. exact_ratio raw rs mod 2 ^ n) (raw_counts r)"
      by (simp only: r md)
  qed
qed

text \<open>
  At a region of 100 bytes that reports 200 bytes used and 100 live: the exact ratios are
  200 and 100, and the seven-bit fields hold 72 (200 modulo 128) and 100.
\<close>

theorem ratios_are_truncated_percentages_witness:
  "layout_ok reference_layout \<and> (100 :: size_t) \<noteq> 0 \<and>
   list_all no_wrap (raw_counts burst_region) \<and>
   region_data reference_layout 100 burst_region = Inr 0x600000000003248 \<and>
   map (\<lambda>raw. exact_ratio raw 100) (raw_counts burst_region) = [200, 100, 0, 0, 0, 0] \<and>
   PERCENT_MASK reference_layout = mask 7 \<and>
   map unat (ratios (decode_region reference_layout 0x600000000003248)) =
     [72, 100, 0, 0, 0, 0]"
  using ratios_are_truncated_percentages[of reference_layout 100 burst_region]
  by (simp add: layout_ok_def field_table_def placed_def no_wrap_def raw_counts_def
      reference_layout_def burst_region_def region_data_def decode_region_def
      decode_field_def ratios_def exact_ratio_def mask_eq_exp_minus_1)

text \<open>
  C7. For a well-formed layout, a region size that is not zero and a region whose age,
  affiliation and state fit their fields, decoding the word \<open>region_data\<close> returns gives
  back the age, the affiliation and the state exactly; each of the six ratios comes back
  exactly when it fits the ratio field, and cut by the field's mask otherwise.
\<close>

theorem region_word_round_trip:
  assumes "layout_ok L" "rs \<noteq> 0" "valid_sample L r"
  shows "\<exists>w. region_data L rs r = Inr w \<and>
     sample_age (decode_region L w) = ucast (age r) \<and>
     sample_affiliation (decode_region L w) = Some (affiliation r) \<and>
     sample_state (decode_region L w) = scast (state_ordinal r) \<and>
     ratios (decode_region L w) =
       map (\<lambda>raw. if fits (PERCENT_MASK L) (100 * raw div rs) then 100 * raw div rs
                  else (100 * raw div rs) AND PERCENT_MASK L) (raw_counts r)"
proof -
  have "map (\<lambda>raw. (100 * raw div rs) AND PERCENT_MASK L) (raw_counts r) =
     map (\<lambda>raw. if fits (PERCENT_MASK L) (100 * raw div rs) then 100 * raw div rs
                  else (100 * raw div rs) AND PERCENT_MASK L) (raw_counts r)"
    by (simp add: fits_and)
  then show ?thesis using assms
    by (simp add: region_data_word decode_region_word_ratios)
       (simp add: decode_region_def decode_region_word valid_sample_def fits_and
          decode_affiliation_ordinal)
qed

text \<open>
  At the half-used region of the example heap, and at the region whose used ratio of 200
  does not fit seven bits and comes back as 72.
\<close>

theorem region_word_round_trip_witness:
  "layout_ok reference_layout \<and> (100 :: size_t) \<noteq> 0 \<and>
   valid_sample reference_layout example_region \<and>
   region_data reference_layout 100 example_region = Inr 0x918000000000cb2 \<and>
   decode_region reference_layout 0x918000000000cb2 =
     \<lparr>used_ratio = 50, live_ratio = 25, tlab_ratio = 0, gclab_ratio = 0, plab_ratio = 0,
      shared_ratio = 0, sample_age = 3, sample_affiliation = Some YOUNG_GENERATION,
      sample_state = 2\<rparr> \<and>
   valid_sample reference_layout burst_region \<and>
   region_data reference_layout 100 burst_region = Inr 0x600000000003248 \<and>
   \<not> fits (PERCENT_MASK reference_layout) (100 * used burst_region div 100) \<and>
   decode_region reference_layout 0x600000000003248 =
     \<lparr>used_ratio = 72, live_ratio = 100, tlab_ratio = 0, gclab_ratio = 0, plab_ratio = 0,
      shared_ratio = 0, sample_age = 0, sample_affiliation = Some OLD_GENERATION,
      sample_state = 1\<rparr>"
  using region_word_round_trip[of reference_layout 100 example_region]
    region_word_round_trip[of reference_layout 100 burst_region]
  by (simp add: layout_ok_def field_table_def placed_def valid_sample_def fits_def
      reference_layout_def example_region_def burst_region_def region_data_def
      decode_region_def decode_field_def decode_affiliation_def ratios_def raw_counts_def)

section \<open>Properties of the sampler\<close>

lemma region_events_nth:
  "region_events L rs i rgs =
     map (\<lambda>k. SetRegion (i + k) (region_word L rs (rgs ! k))) [0..<length rgs]"
  by (induction rgs arbitrary: i) (simp_all add: map_upt_Suc del: upt_Suc)

lemma loop_result_Nil: "i \<le> length (regions_data s) \<Longrightarrow> loop_result L rs [] i s = s"
  by (simp add: loop_result_def)

lemma loop_result_Cons:
  "i < length (regions_data s) \<Longrightarrow>
   loop_result L rs rgs (Suc i) (set_region i (region_word L rs r) s) =
   loop_result L rs (r # rgs) i s"
  by (simp add: loop_result_def set_region_def take_Suc_conv_app_nth)

text \<open>
  The loop in closed form: it fails at the first region when the region size is zero, it
  fails when there are more regions than counters, and otherwise it writes one word per
  region, in index order.
\<close>

lemma region_loop_closed:
  "i \<le> length (regions_data s) \<Longrightarrow>
   region_loop L rs rgs i s =
     (if rgs = [] then Inr s
      else if rs = 0 then Inl DivisionByZero
      else if length (regions_data s) < i + length rgs then Inl IndexOutOfBounds
      else Inr (loop_result L rs rgs i s))"
proof (induction rgs arbitrary: i s)
  case Nil
  then show ?case by simp
next
  case (Cons r rgs)
  show ?case
  proof (cases "rs = 0 \<or> \<not> i < length (regions_data s)")
    case True
    then show ?thesis using Cons.prems by (auto simp: region_data_word)
  next
    case False
    then have i: "i < length (regions_data s)" and rs: "rs \<noteq> 0" by simp_all
    have "Suc i \<le> length (regions_data (set_region i (region_word L rs r) s))"
      using i by (simp add: set_region_def)
    note IH = Cons.IH[OF this]
    have len: "length (regions_data (set_region i (region_word L rs r) s)) =
        length (regions_data s)"
      by (simp add: set_region_def)
    show ?thesis
    proof (cases "rgs = []")
      case True
      then show ?thesis using i rs IH loop_result_Cons[OF i, of L rs "[]" r]
        by (simp add: region_data_word loop_result_Nil len)
    next
      case False
      then show ?thesis using i rs IH loop_result_Cons[OF i, of L rs rgs r]
        by (simp add: region_data_word len)
    qed
  qed
qed



lemma try_acquire_cases:
  "try_acquire rate current last_read dest =
     (if interval_elapsed rate current last_read \<and> dest = last_read
      then (True, current) else (False, dest))"
  by (simp add: try_acquire_def cmpxchg_def)

text \<open>The pass in closed form: its four ways to fail, and the state it leaves otherwise.\<close>

lemma sampling_pass_closed:
  "sampling_pass g elapsed heap s =
     (case encode_heap_status (ASSERT g) heap of
        Inl e \<Rightarrow> Inl e
      | Inr st \<Rightarrow>
          if \<not> perf_created s then Inl NullPointer
          else if regions heap \<noteq> [] \<and> region_size_bytes g = 0 then Inl DivisionByZero
          else if length (regions_data s) < num_regions heap then Inl IndexOutOfBounds
          else if ShenandoahLogRegionSampling g \<and> log_file s = None then Inl NullPointer
          else Inr (pass_result g elapsed heap st s))"
proof (cases "encode_heap_status (ASSERT g) heap")
  case (Inl e)
  then show ?thesis by (simp add: sampling_pass_def)
next
  case (Inr st)
  let ?s0 = "lock_heap (set_timestamp elapsed (set_status st s))"
  let ?s1 = "loop_result (bit_layout g) (region_size_bytes g) (regions heap) 0 ?s0"
  have s0: "regions_data ?s0 = regions_data s" "log_file ?s0 = log_file s"
    by (simp_all add: lock_heap_def set_timestamp_def set_status_def)
  have loop: "region_loop (bit_layout g) (region_size_bytes g) (regions heap) 0 ?s0 =
     (if regions heap = [] then Inr ?s0
      else if region_size_bytes g = 0 then Inl DivisionByZero
      else if length (regions_data s) < num_regions heap then Inl IndexOutOfBounds
      else Inr ?s1)"
    by (simp add: region_loop_closed s0 num_regions_def)
  have nil: "regions heap = [] \<Longrightarrow> ?s1 = ?s0"
    by (simp add: loop_result_Nil)
  have lr: "regions_data ?s1 = pass_words g heap s" "log_file ?s1 = log_file s"
    by (simp_all add: loop_result_def pass_words_def num_regions_def s0)
  have fin: "unlock_heap ?s1 = pass_result g elapsed heap st s"
    if "\<not> ShenandoahLogRegionSampling g"
    using that
    by (simp add: pass_result_def pass_events_def unlock_heap_def loop_result_def lock_heap_def
        set_timestamp_def set_status_def pass_words_def num_regions_def region_events_nth)
  have finl: "unlock_heap (write_snapshot (num_regions heap) (region_size_bytes g) ?s1)
       = pass_result g elapsed heap st s" if "ShenandoahLogRegionSampling g"
    using that
    by (simp add: pass_result_def pass_events_def unlock_heap_def write_snapshot_def
        loop_result_def lock_heap_def
        set_timestamp_def set_status_def pass_words_def num_regions_def region_events_nth)
  show ?thesis
  proof (cases "regions heap = []")
    case True
    note N = nil[OF True]
    show ?thesis using True lr[unfolded N] fin[unfolded N] finl[unfolded N]
      by (auto simp: sampling_pass_def Inr num_regions_def split: option.splits)
  next
    case False
    show ?thesis using False
      by (auto simp: sampling_pass_def Inr loop lr fin finl split: option.splits)
  qed
qed

lemma pass_result_simps:
  "last_sample_millis (pass_result g elapsed heap st s) = last_sample_millis s"
  "perf_created (pass_result g elapsed heap st s) = perf_created s"
  "timestamp (pass_result g elapsed heap st s) = elapsed"
  "max_regions (pass_result g elapsed heap st s) = max_regions s"
  "region_size (pass_result g elapsed heap st s) = region_size s"
  "status (pass_result g elapsed heap st s) = st"
  "regions_data (pass_result g elapsed heap st s) = pass_words g heap s"
  "trace (pass_result g elapsed heap st s) =
     trace s @ pass_events g elapsed heap st (pass_words g heap s)"
  by (simp_all add: pass_result_def)

lemma update_from_closed:
  "update_from g current elapsed heap last_read s =
     (if interval_elapsed (ShenandoahRegionSamplingRate g) current last_read \<and>
         last_sample_millis s = last_read
      then (case sampling_pass g elapsed heap (s\<lparr>last_sample_millis := current\<rparr>) of
              Inl e \<Rightarrow> Inl e | Inr s' \<Rightarrow> Inr (Sampled, s'))
      else Inr (Skipped, s))"
  by (simp add: update_from_def try_acquire_cases)

lemma update_closed:
  "update g current elapsed heap s =
     (if ShenandoahRegionSampling g \<and>
         interval_elapsed (ShenandoahRegionSamplingRate g) current (last_sample_millis s)
      then (case sampling_pass g elapsed heap (s\<lparr>last_sample_millis := current\<rparr>) of
              Inl e \<Rightarrow> Inl e | Inr s' \<Rightarrow> Inr (Sampled, s'))
      else Inr (Skipped, s))"
  by (simp add: update_def update_from_closed)

lemma update_Sampled:
  assumes "update g current elapsed heap s = Inr (Sampled, s')"
  shows "\<exists>st. encode_heap_status (ASSERT g) heap = Inr st \<and>
     num_regions heap \<le> length (regions_data s) \<and> perf_created s \<and>
     s' = pass_result g elapsed heap st (s\<lparr>last_sample_millis := current\<rparr>)"
  using assms
  by (auto simp: update_closed sampling_pass_closed split: if_splits sum.splits)






lemmas example_defs =
  example_globals_def example_heap_def example_region_def burst_region_def
  reference_layout_def construct_def num_regions_def after_first_pass_def
  after_second_pass_def first_snapshot_def first_pass_events_def

lemmas eval_defs =
  update_closed sampling_pass_closed interval_elapsed_def encode_heap_status_def
  encode_phase_def pass_result_def pass_words_def pass_events_def region_word_def
  put_field_def

text \<open>
  C3. A call that finds \<^verbatim>\<open>current - last\<close> at or below the sampling rate returns without
  sampling and leaves the whole state as it was: the gate timestamp, the timestamp and
  status counters, every region counter, the log file and the trace of calls on them.
  This holds for the value \<open>last_read\<close> the call has read, whatever the field holds by
  then, and so for a call that runs undisturbed.
\<close>

theorem skipped_call_changes_nothing:
  assumes "sint (current - last_read) \<le> sint (ShenandoahRegionSamplingRate g)"
  shows "update_from g current elapsed heap last_read s = Inr (Skipped, s) \<and>
     (last_read = last_sample_millis s \<longrightarrow>
        update g current elapsed heap s = Inr (Skipped, s))"
  using assms by (auto simp: update_closed update_from_closed interval_elapsed_def)

text \<open>
  With sampling enabled and a rate of 40, a call at 140 after a sample at 100: the
  difference is exactly the rate, and the call is skipped.
\<close>

theorem skipped_call_changes_nothing_witness:
  "ShenandoahRegionSampling example_globals \<and>
   sint ((140 :: jlong) - last_sample_millis after_first_pass)
     \<le> sint (ShenandoahRegionSamplingRate example_globals) \<and>
   update_from example_globals 140 8 example_heap 100 after_first_pass
     = Inr (Skipped, after_first_pass) \<and>
   update example_globals 140 8 example_heap after_first_pass
     = Inr (Skipped, after_first_pass)"
  using skipped_call_changes_nothing
    [of 140 "last_sample_millis after_first_pass" example_globals 8 example_heap
      after_first_pass]
  by (simp add: example_globals_def after_first_pass_def)

text \<open>
  C5, as the spec states it, fails: the first counter written by a pass is the status
  counter, not the timestamp counter. On the example heap the first pass of a new sampler
  writes the status word 4 and only then the timestamp 7.
\<close>

theorem timestamp_first_counterexample:
  "update example_globals 100 7 example_heap (construct example_globals example_heap)
     = Inr (Sampled, after_first_pass) \<and>
   trace (construct example_globals example_heap) = [] \<and>
   trace after_first_pass =
     [SetStatus 4, SetTimestamp 7, LockHeap, SetRegion 0 0x918000000000cb2,
      SetRegion 1 0x600000000003248,
      WriteSnapshot [0x918000000000cb2, 0x600000000003248] 7 4 2 100, UnlockHeap] \<and>
   \<not> timestamp_before_status (trace after_first_pass)"
  by (simp add: example_defs eval_defs)

text \<open>
  C5, amended. Every call that samples performs these effects and no others, in this
  order: it computes the status word and writes it to the status counter; it writes the
  elapsed counter to the timestamp counter; it takes the heap lock; it writes the word of
  each region to the region's counter, in index order from 0; if log output is enabled it
  hands the region words, the timestamp, the status, the region count and the region size
  to the log file, once; it releases the lock.
\<close>

theorem pass_effects_in_order:
  assumes "update g current elapsed heap s = Inr (Sampled, s')"
  shows "\<exists>st. encode_heap_status (ASSERT g) heap = Inr st \<and>
     trace s' = trace s @
       [SetStatus st, SetTimestamp elapsed, LockHeap] @
       map (\<lambda>i. SetRegion i
                  (region_word (bit_layout g) (region_size_bytes g) (regions heap ! i)))
         [0..<num_regions heap] @
       (if ShenandoahLogRegionSampling g
        then [WriteSnapshot (regions_data s') elapsed st (num_regions heap)
                (region_size_bytes g)]
        else []) @
       [UnlockHeap]"
  using update_Sampled[OF assms]
  by (auto simp: pass_result_simps pass_events_def pass_words_def)

text \<open>
  On the example heap in a mode that is not generational, with log output disabled: the
  status word is 1 and the log file is not called.
\<close>

theorem pass_effects_in_order_witness:
  "update (example_globals\<lparr>ShenandoahLogRegionSampling := False\<rparr>) 100 7
     (example_heap\<lparr>is_generational := False\<rparr>)
     (construct (example_globals\<lparr>ShenandoahLogRegionSampling := False\<rparr>)
        (example_heap\<lparr>is_generational := False\<rparr>))
     = Inr (Sampled,
         \<lparr>last_sample_millis = 100, perf_created = True, timestamp = 7, max_regions = 2,
          region_size = 0, status = 1,
          regions_data = [0x918000000000cb2, 0x600000000003248],
          log_file = None,
          trace = [SetStatus 1, SetTimestamp 7, LockHeap, SetRegion 0 0x918000000000cb2,
                   SetRegion 1 0x600000000003248, UnlockHeap]\<rparr>) \<and>
   encode_heap_status True (example_heap\<lparr>is_generational := False\<rparr>) = Inr 1"
  using pass_effects_in_order
    [of "example_globals\<lparr>ShenandoahLogRegionSampling := False\<rparr>" 100 7
       "example_heap\<lparr>is_generational := False\<rparr>"
       "construct (example_globals\<lparr>ShenandoahLogRegionSampling := False\<rparr>)
          (example_heap\<lparr>is_generational := False\<rparr>)"
       "\<lparr>last_sample_millis = 100, perf_created = True, timestamp = 7, max_regions = 2,
          region_size = 0, status = 1,
          regions_data = [0x918000000000cb2, 0x600000000003248],
          log_file = None,
          trace = [SetStatus 1, SetTimestamp 7, LockHeap, SetRegion 0 0x918000000000cb2,
                   SetRegion 1 0x600000000003248, UnlockHeap]\<rparr>"]
  by (simp add: example_defs eval_defs)




section \<open>Properties of concurrent calls\<close>

lemma now_update: "t_now (xs[i := (xs ! i)\<lparr>t_pc := p\<rparr>] ! j) = t_now (xs ! j)"
  by (cases "i < length xs") (simp_all add: nth_list_update list_update_beyond)

lemma map_now_update: "map t_now (xs[i := (xs ! i)\<lparr>t_pc := p\<rparr>]) = map t_now xs"
  by (rule nth_equalityI) (simp_all add: now_update)

lemma set_pc_simps:
  "length (threads (set_pc i p c)) = length (threads c)"
  "shared_last (set_pc i p c) = shared_last c"
  "passes (set_pc i p c) = passes c"
  "map t_now (threads (set_pc i p c)) = map t_now (threads c)"
  "now_of (set_pc i p c) j = now_of c j"
  "i < length (threads c) \<Longrightarrow> pc_of (set_pc i p c) j = (if j = i then p else pc_of c j)"
  by (auto simp: set_pc_def now_of_def pc_of_def nth_list_update map_now_update now_update)

lemma config_update_simps:
  "pc_of (c\<lparr>shared_last := v\<rparr>) i = pc_of c i"
  "pc_of (c\<lparr>passes := k\<rparr>) i = pc_of c i"
  "now_of (c\<lparr>shared_last := v\<rparr>) i = now_of c i"
  "now_of (c\<lparr>passes := k\<rparr>) i = now_of c i"
  by (simp_all add: pc_of_def now_of_def)

lemma one_interval_facts:
  assumes "one_interval rate l nows" "n \<in> set nows"
  shows "interval_elapsed rate n l" and "m \<in> set nows \<Longrightarrow> \<not> interval_elapsed rate n m"
    and "n \<noteq> l"
  using assms by (auto simp: one_interval_def list_all_iff)

lemma now_in_set:
  "map t_now (threads c) = nows \<Longrightarrow> i < length (threads c) \<Longrightarrow> now_of c i \<in> set nows"
  by (auto simp: now_of_def)

text \<open>
  What a step of thread \<open>i\<close> does, by the point the thread is at. A thread whose exchange
  fails, or whose comparison fails, returns in that very step and leaves the shared state
  as it was.
\<close>

lemma thread_step_eq:
  assumes "i < length (threads c)"
  shows "pc_of c i = AtStart \<Longrightarrow>
           thread_step rate i c = set_pc i (HasRead (shared_last c)) c"
    and "pc_of c i = HasRead v \<Longrightarrow> thread_step rate i c =
           (if interval_elapsed rate (now_of c i) v \<and> shared_last c = v
            then set_pc i Won (c\<lparr>shared_last := now_of c i\<rparr>)
            else set_pc i (Returned Skipped) c)"
    and "pc_of c i = Won \<Longrightarrow>
           thread_step rate i c = set_pc i (Returned Sampled) (c\<lparr>passes := Suc (passes c)\<rparr>)"
    and "pc_of c i = Returned outcome \<Longrightarrow> thread_step rate i c = c"
  using assms by (simp_all add: thread_step_def pc_of_def now_of_def try_acquire_cases)

lemma no_winner_read:
  "no_winner l c \<Longrightarrow> i < length (threads c) \<Longrightarrow> no_winner l (set_pc i (HasRead l) c)"
  by (simp add: no_winner_def set_pc_simps)

lemma no_winner_wins:
  "no_winner l c \<Longrightarrow> i < length (threads c) \<Longrightarrow>
   one_winner l i (set_pc i Won (c\<lparr>shared_last := now_of c i\<rparr>))"
  by (auto simp: no_winner_def one_winner_def set_pc_simps config_update_simps)

lemma one_winner_other:
  assumes "one_winner l w c" "i < length (threads c)" "i \<noteq> w"
    and "p = AtStart \<or> p = HasRead l \<or> p = HasRead (now_of c w) \<or> p = Returned Skipped"
  shows "one_winner l w (set_pc i p c)"
  using assms by (simp add: one_winner_def set_pc_simps)

lemma one_winner_pass:
  assumes "one_winner l w c" "pc_of c w = Won"
  shows "one_winner l w (set_pc w (Returned Sampled) (c\<lparr>passes := Suc (passes c)\<rparr>))"
  using assms by (simp add: one_winner_def set_pc_simps config_update_simps)

lemma thread_step_now: "map t_now (threads (thread_step rate i c)) = map t_now (threads c)"
  by (simp add: thread_step_def set_pc_simps split: pc.splits prod.splits bool.splits)

text \<open>Every step of every thread keeps the invariant of the gate.\<close>

lemma thread_step_inv:
  assumes oi: "one_interval rate l nows" and inv: "gate_inv l nows c"
  shows "gate_inv l nows (thread_step rate i c)"
proof (cases "i < length (threads c)")
  case False
  then show ?thesis using inv by (simp add: thread_step_def)
next
  case i: True
  from inv have nows: "map t_now (threads c) = nows" by (simp add: gate_inv_def)
  have ni: "now_of c i \<in> set nows" using nows i by (rule now_in_set)
  note F = one_interval_facts[OF oi]
  note E = thread_step_eq[OF i, where rate = rate]
  from inv consider (none) "no_winner l c" | (one) w where "one_winner l w c"
    by (auto simp: gate_inv_def)
  then have "no_winner l (thread_step rate i c) \<or> (\<exists>w. one_winner l w (thread_step rate i c))"
  proof cases
    case none
    then have sh: "shared_last c = l" by (simp add: no_winner_def)
    from none i have "pc_of c i = AtStart \<or> pc_of c i = HasRead l"
      by (simp add: no_winner_def)
    then show ?thesis
    proof
      assume "pc_of c i = AtStart"
      then show ?thesis using no_winner_read[OF none i] by (simp add: E(1) sh)
    next
      assume "pc_of c i = HasRead l"
      moreover have "interval_elapsed rate (now_of c i) l" using F(1)[OF ni] .
      ultimately have "thread_step rate i c = set_pc i Won (c\<lparr>shared_last := now_of c i\<rparr>)"
        by (simp add: E(2) sh)
      then show ?thesis using no_winner_wins[OF none i] by auto
    qed
  next
    case one
    then have w: "w < length (threads c)" and sh: "shared_last c = now_of c w"
      by (simp_all add: one_winner_def)
    have nw: "now_of c w \<in> set nows" using nows w by (rule now_in_set)
    have "one_winner l w (thread_step rate i c)"
    proof (cases "i = w")
      case True
      from one have "pc_of c w = Won \<or> pc_of c w = Returned Sampled"
        by (auto simp: one_winner_def)
      then show ?thesis
      proof
        assume "pc_of c w = Won"
        then show ?thesis using one_winner_pass[OF one] E(3) True by simp
      next
        assume "pc_of c w = Returned Sampled"
        then show ?thesis using one E(4) True by simp
      qed
    next
      case False
      note O = one_winner_other[OF one i False]
      have ne: "\<not> interval_elapsed rate (now_of c i) (now_of c w)"
        using F(2)[OF ni nw] .
      have nl: "now_of c w \<noteq> l" using F(3)[OF nw] .
      from one i False have "pc_of c i = AtStart \<or> pc_of c i = HasRead l \<or>
          pc_of c i = HasRead (now_of c w) \<or> pc_of c i = Returned Skipped"
        by (simp add: one_winner_def)
      then show ?thesis
      proof (elim disjE)
        assume "pc_of c i = AtStart"
        then show ?thesis using O by (simp add: E(1) sh)
      next
        assume "pc_of c i = HasRead l"
        then show ?thesis using O nl by (simp add: E(2) sh)
      next
        assume "pc_of c i = HasRead (now_of c w)"
        then show ?thesis using O ne by (simp add: E(2))
      next
        assume "pc_of c i = Returned Skipped"
        then show ?thesis using one by (simp add: E(4))
      qed
    qed
    then show ?thesis by blast
  qed
  then show ?thesis using nows by (simp add: gate_inv_def thread_step_now)
qed

lemma run_schedule_inv:
  "one_interval rate l nows \<Longrightarrow> gate_inv l nows c \<Longrightarrow>
   gate_inv l nows (run_schedule rate sched c)"
  by (induction sched arbitrary: c) (simp_all add: thread_step_inv)

lemma initial_inv: "gate_inv l nows (initial_config l nows)"
  by (simp add: gate_inv_def initial_config_def no_winner_def pc_of_def comp_def)

lemma is_returned_iff:
  "(case p of Returned outcome \<Rightarrow> True | _ \<Rightarrow> False) = (\<exists>outcome. p = Returned outcome)"
  by (cases p) simp_all

lemma returned_iff:
  "all_returned c = (\<forall>i < length (threads c). \<exists>outcome. pc_of c i = Returned outcome)"
  by (simp add: all_returned_def list_all_length pc_of_def is_returned_iff)

lemma sampled_count_card:
  "sampled_count c = card {i. i < length (threads c) \<and> pc_of c i = Returned Sampled}"
  by (simp add: sampled_count_def length_filter_conv_card pc_of_def)

text \<open>Once every thread has returned, one of them has sampled and the others have not.\<close>

lemma all_returned_one_pass:
  assumes "gate_inv l nows c" "all_returned c" "nows \<noteq> []"
  shows "passes c = 1 \<and> sampled_count c = 1 \<and> shared_last c \<in> set nows"
proof -
  from assms(1) have nows: "map t_now (threads c) = nows" by (simp add: gate_inv_def)
  with assms(3) have pos: "0 < length (threads c)" by auto
  from assms(2) have ret:
    "\<And>i. i < length (threads c) \<Longrightarrow> \<exists>outcome. pc_of c i = Returned outcome"
    by (simp add: returned_iff)
  have "\<not> no_winner l c" using ret[OF pos] pos by (auto simp: no_winner_def)
  with assms(1) obtain w where w: "one_winner l w c" by (auto simp: gate_inv_def)
  then have wl: "w < length (threads c)" by (simp add: one_winner_def)
  from w ret[OF wl] have pw: "pc_of c w = Returned Sampled" and p: "passes c = 1"
    by (auto simp: one_winner_def)
  have others: "\<And>i. i < length (threads c) \<Longrightarrow> i \<noteq> w \<Longrightarrow> pc_of c i = Returned Skipped"
    using w ret by (fastforce simp: one_winner_def)
  have "\<And>i. i < length (threads c) \<Longrightarrow> (pc_of c i = Returned Sampled) = (i = w)"
    using pw others by (metis SampleOutcome.distinct(1) pc.inject(2))
  then have "{i. i < length (threads c) \<and> pc_of c i = Returned Sampled} = {w}"
    using wl by auto
  then have "sampled_count c = 1" by (simp add: sampled_count_card)
  moreover have "shared_last c \<in> set nows"
    using w nows wl by (simp add: one_winner_def now_in_set)
  ultimately show ?thesis using p by simp
qed

lemma thread_step_length: "length (threads (thread_step rate i c)) = length (threads c)"
  by (simp add: thread_step_def set_pc_simps split: pc.splits prod.splits bool.splits)

lemma thread_step_other:
  "j \<noteq> i \<Longrightarrow> pc_of (thread_step rate i c) j = pc_of c j"
  by (simp add: thread_step_def set_pc_simps config_update_simps
      split: pc.splits prod.splits bool.splits)

lemma thread_step_rank:
  assumes "i < length (threads c)"
  shows "min 3 (Suc (pc_rank (pc_of c i))) \<le> pc_rank (pc_of (thread_step rate i c) i)"
  using assms thread_step_eq[OF assms, where rate = rate]
  by (cases "pc_of c i") (simp_all add: set_pc_simps config_update_simps)

lemma run_schedule_rank:
  "i < length (threads c) \<Longrightarrow>
   min 3 (pc_rank (pc_of c i) + count_list sched i)
     \<le> pc_rank (pc_of (run_schedule rate sched c) i)"
proof (induction sched arbitrary: c)
  case Nil
  then show ?case by simp
next
  case (Cons j sched)
  have len: "i < length (threads (thread_step rate j c))"
    using Cons.prems by (simp add: thread_step_length)
  note IH = Cons.IH[OF len]
  show ?case
  proof (cases "j = i")
    case True
    with thread_step_rank[OF Cons.prems, of rate] IH show ?thesis by simp
  next
    case False
    with thread_step_other[of i j rate c] IH show ?thesis by simp
  qed
qed

lemma run_schedule_length: "length (threads (run_schedule rate sched c)) = length (threads c)"
  by (induction sched arbitrary: c) (simp_all add: thread_step_length)

lemma rank_returned: "3 \<le> pc_rank p \<Longrightarrow> \<exists>outcome. p = Returned outcome"
  by (cases p) simp_all

text \<open>
  No thread waits for another: three steps of its own take a thread to its return,
  whatever the other threads do in between.
\<close>

lemma fair_schedule_returns:
  assumes "\<forall>i < length (threads c). 3 \<le> count_list sched i"
  shows "all_returned (run_schedule rate sched c)"
  unfolding returned_iff run_schedule_length
proof (intro allI impI)
  fix i assume i: "i < length (threads c)"
  with assms have "3 \<le> count_list sched i" by simp
  with run_schedule_rank[OF i, of sched rate]
  have "3 \<le> pc_rank (pc_of (run_schedule rate sched c) i)" by simp
  then show "\<exists>outcome. pc_of (run_schedule rate sched c) i = Returned outcome"
    by (rule rank_returned)
qed

text \<open>
  C4. Any number of threads call \<open>update\<close> within one sampling interval: each clock
  reading passes the gate against the last sample's timestamp \<open>l\<close>, and none passes it
  against another's. Under every interleaving of their reads and exchanges in which each
  thread gets its three steps, all threads return, exactly one pass is run and exactly
  one thread returns having sampled. A thread whose exchange fails because the field no
  longer holds the value it read returns without sampling in that same step, without a
  second attempt, and changes nothing; the same holds of \<open>update_from\<close>.
\<close>

theorem one_pass_per_interval:
  assumes "one_interval rate l nows" "nows \<noteq> []"
    and "\<forall>i < length nows. 3 \<le> count_list sched i"
  shows "all_returned (run_schedule rate sched (initial_config l nows)) \<and>
     passes (run_schedule rate sched (initial_config l nows)) = 1 \<and>
     sampled_count (run_schedule rate sched (initial_config l nows)) = 1 \<and>
     (\<forall>c i v. i < length (threads c) \<and> pc_of c i = HasRead v \<and> shared_last c \<noteq> v \<longrightarrow>
        thread_step rate i c = set_pc i (Returned Skipped) c) \<and>
     (\<forall>g current elapsed heap last_read s. last_sample_millis s \<noteq> last_read \<longrightarrow>
        update_from g current elapsed heap last_read s = Inr (Skipped, s))"
proof -
  have "all_returned (run_schedule rate sched (initial_config l nows))"
    by (rule fair_schedule_returns) (use assms(3) in \<open>simp add: initial_config_def\<close>)
  with all_returned_one_pass[OF run_schedule_inv[OF assms(1) initial_inv] _ assms(2)]
  show ?thesis by (simp add: thread_step_eq(2) update_from_closed)
qed

text \<open>
  Two threads with clock readings 100 and 120, a last sample at 0 and a rate of 40. Both
  read 0; the first wins the exchange; the exchange of the second fails and it returns;
  the first runs the pass. On the sequential model, a call at 150 that had read 0 before
  the sample at 100 was taken is skipped.
\<close>

theorem one_pass_per_interval_witness:
  "one_interval 40 0 [100, 120] \<and> [100, 120 :: jlong] \<noteq> [] \<and>
   3 \<le> count_list [0, 1, 0, 1, 1, 0 :: nat] 0 \<and>
   3 \<le> count_list [0, 1, 0, 1, 1, 0 :: nat] 1 \<and>
   run_schedule 40 [0, 1, 0, 1, 1, 0] (initial_config 0 [100, 120]) =
     \<lparr>shared_last = 100,
      threads = [\<lparr>t_now = 100, t_pc = Returned Sampled\<rparr>,
                 \<lparr>t_now = 120, t_pc = Returned Skipped\<rparr>],
      passes = 1\<rparr> \<and>
   run_schedule 40 [0, 1, 0] (initial_config 0 [100, 120]) =
     \<lparr>shared_last = 100,
      threads = [\<lparr>t_now = 100, t_pc = Won\<rparr>, \<lparr>t_now = 120, t_pc = HasRead 0\<rparr>],
      passes = 0\<rparr> \<and>
   update_from example_globals 150 8 example_heap 0 after_first_pass
     = Inr (Skipped, after_first_pass)"
proof -
  have h1: "one_interval 40 0 [100, 120]"
    by (simp add: one_interval_def interval_elapsed_def)
  have h2: "[100, 120 :: jlong] \<noteq> []" by simp
  have h3: "\<forall>i < length [100, 120 :: jlong]. 3 \<le> count_list [0, 1, 0, 1, 1, 0 :: nat] i"
    by (simp add: less_Suc_eq numeral_2_eq_2)
  show ?thesis
    using h1 one_pass_per_interval[OF h1 h2 h3]
    by (simp add: initial_config_def thread_step_def set_pc_def try_acquire_def cmpxchg_def
        interval_elapsed_def update_from_def after_first_pass_def example_globals_def)
qed

end
